theory Spec2Isabelle
  imports Complex_Main
begin

section \<open>The input device of gainput: GainputInputDevice.h\<close>

text \<open>
  The header declares the abstract class InputDevice and defines, inline, its accessors,
  the availability test, the four typed getters and the default bodies of the optional
  capabilities. The bodies of the constructor, of GetState, of Update and of
  CheckAllButtonsDown, the classes InputState and InputDeltaState and the macro
  GAINPUT_ASSERT are declared or used by the header but defined elsewhere in the
  library; they are modelled from the specification and marked as such.

  GetBool, GetBoolPrevious, GetFloat, GetFloatPrevious, IsAvailable and the optional
  capabilities are virtual. The model is of the bodies that InputDevice itself gives
  them, that is of a device whose class does not override them.
\<close>

subsection \<open>Identifiers, enumerations, failures\<close>

text \<open>
  DeviceId, DeviceButtonId, the unsigned index and size_t are unsigned integers. The
  header stores, passes and returns them and never computes with them, so they are
  natural numbers here. An address of a state buffer is a natural number as well.
\<close>

type_synonym DeviceId = nat
type_synonym DeviceButtonId = nat
type_synonym addr = nat

datatype DeviceState = DS_OK | DS_LOW_BATTERY | DS_UNAVAILABLE

text \<open>
  What stops a call: a GAINPUT_ASSERT that does not hold (the assertions are modelled as
  enabled, the debug build), the use of a pointer that refers to no buffer, and a write
  past the end of an output array.
\<close>

datatype error = AssertionFailed | InvalidPointer | OutOfBounds

text \<open>
  Modelled from the spec: InvalidDeviceButtonId is used by the header and declared
  outside it. The specification calls it a reserved sentinel value of the unsigned
  button-id type that denotes "no such button"; the model takes the largest 32-bit
  value.
\<close>

definition InvalidDeviceButtonId :: DeviceButtonId where
  "InvalidDeviceButtonId = 4294967295"

subsection \<open>The state buffer\<close>

text \<open>
  Modelled from the spec: the class InputState is only named by the header. The
  specification describes it as a flat container mapping a button index to either a
  boolean or a floating-point value, with get and set; reading a button id outside the
  container, or reading a button with the getter of the other type, is a caller error
  checked by a debug-only assertion. The header moves floating-point values around
  without computing with them; they are real numbers here.
\<close>

datatype Button = BoolValue bool | FloatValue real

type_synonym InputState = "Button list"

definition InputState_GetBool :: "InputState \<Rightarrow> DeviceButtonId \<Rightarrow> error + bool" where
  "InputState_GetBool s buttonId =
     (if buttonId < length s
      then (case s ! buttonId of
              BoolValue b \<Rightarrow> Inr b
            | FloatValue f \<Rightarrow> Inl AssertionFailed)
      else Inl AssertionFailed)"

text \<open>
  Modelled from the spec: the floating-point accessor of InputState, under the same
  description as the boolean one.
\<close>

definition InputState_GetFloat :: "InputState \<Rightarrow> DeviceButtonId \<Rightarrow> error + real" where
  "InputState_GetFloat s buttonId =
     (if buttonId < length s
      then (case s ! buttonId of
              BoolValue b \<Rightarrow> Inl AssertionFailed
            | FloatValue f \<Rightarrow> Inr f)
      else Inl AssertionFailed)"

subsection \<open>The device and the memory it points into\<close>

text \<open>
  The protected members of InputDevice. A member name of the source ends in an
  underscore, which a name cannot do here, so each carries the suffix \<open>_m\<close>:
  \<open>deviceId_m\<close> is \<open>deviceId_\<close>. The two state pointers are addresses, \<open>None\<close>
  being the null pointer. The pure virtual functions InternalGetState and
  IsValidButtonId belong to the concrete device; their current answers are fields of
  the record.
\<close>

record InputDevice =
  manager_m :: addr
  deviceId_m :: DeviceId
  index_m :: nat
  state_m :: "addr option"
  previousState_m :: "addr option"
  InternalGetState :: DeviceState
  IsValidButtonId :: "DeviceButtonId \<Rightarrow> bool"

text \<open>
  A device together with the buffers its pointers can refer to: \<open>heap\<close> maps an
  address to the contents of the InputState allocated there.
\<close>

record world =
  dev :: InputDevice
  heap :: "addr \<rightharpoonup> InputState"

definition currentState :: "world \<Rightarrow> InputState option" where
  "currentState w = (case state_m (dev w) of None \<Rightarrow> None | Some a \<Rightarrow> heap w a)"

definition previousState :: "world \<Rightarrow> InputState option" where
  "previousState w = (case previousState_m (dev w) of None \<Rightarrow> None | Some p \<Rightarrow> heap w p)"

subsection \<open>Accessors and availability\<close>

text \<open>
  A member function takes the world and returns its result; where a claim is about what
  a call leaves behind, the function returns the world as well.
\<close>

definition GetDeviceId :: "world \<Rightarrow> DeviceId \<times> world" where
  "GetDeviceId w = (deviceId_m (dev w), w)"

definition GetIndex :: "world \<Rightarrow> nat \<times> world" where
  "GetIndex w = (index_m (dev w), w)"

text \<open>
  Modelled from the spec: GetState is declared by the header and defined outside it.
  The specification says it returns the live DeviceState by delegating to
  InternalGetState, without caching.
\<close>

definition GetState :: "world \<Rightarrow> DeviceState" where
  "GetState w = InternalGetState (dev w)"

definition IsAvailable :: "world \<Rightarrow> bool" where
  "IsAvailable w = (GetState w = DS_OK \<or> GetState w = DS_LOW_BATTERY)"

subsection \<open>The typed getters\<close>

text \<open>
  Each getter tests availability first, then asserts that the button id is valid and
  that the pointer is not null, then reads the buffer.
\<close>

definition GetBool :: "world \<Rightarrow> DeviceButtonId \<Rightarrow> (error + bool) \<times> world" where
  "GetBool w deviceButton =
     (if \<not> IsAvailable w then (Inr False, w)
      else if \<not> IsValidButtonId (dev w) deviceButton then (Inl AssertionFailed, w)
      else (case state_m (dev w) of
              None \<Rightarrow> (Inl AssertionFailed, w)
            | Some a \<Rightarrow>
                (case heap w a of
                   None \<Rightarrow> (Inl InvalidPointer, w)
                 | Some s \<Rightarrow> (InputState_GetBool s deviceButton, w))))"

definition GetBoolPrevious :: "world \<Rightarrow> DeviceButtonId \<Rightarrow> (error + bool) \<times> world" where
  "GetBoolPrevious w deviceButton =
     (if \<not> IsAvailable w then (Inr False, w)
      else if \<not> IsValidButtonId (dev w) deviceButton then (Inl AssertionFailed, w)
      else (case previousState_m (dev w) of
              None \<Rightarrow> (Inl AssertionFailed, w)
            | Some p \<Rightarrow>
                (case heap w p of
                   None \<Rightarrow> (Inl InvalidPointer, w)
                 | Some s \<Rightarrow> (InputState_GetBool s deviceButton, w))))"

definition GetFloat :: "world \<Rightarrow> DeviceButtonId \<Rightarrow> (error + real) \<times> world" where
  "GetFloat w deviceButton =
     (if \<not> IsAvailable w then (Inr 0, w)
      else if \<not> IsValidButtonId (dev w) deviceButton then (Inl AssertionFailed, w)
      else (case state_m (dev w) of
              None \<Rightarrow> (Inl AssertionFailed, w)
            | Some a \<Rightarrow>
                (case heap w a of
                   None \<Rightarrow> (Inl InvalidPointer, w)
                 | Some s \<Rightarrow> (InputState_GetFloat s deviceButton, w))))"

definition GetFloatPrevious :: "world \<Rightarrow> DeviceButtonId \<Rightarrow> (error + real) \<times> world" where
  "GetFloatPrevious w deviceButton =
     (if \<not> IsAvailable w then (Inr 0, w)
      else if \<not> IsValidButtonId (dev w) deviceButton then (Inl AssertionFailed, w)
      else (case previousState_m (dev w) of
              None \<Rightarrow> (Inl AssertionFailed, w)
            | Some p \<Rightarrow>
                (case heap w p of
                   None \<Rightarrow> (Inl InvalidPointer, w)
                 | Some s \<Rightarrow> (InputState_GetFloat s deviceButton, w))))"

subsection \<open>The optional capabilities, as the base class defines them\<close>

text \<open>
  Modelled from the spec: DeviceButtonSpec is declared outside the header. The
  specification describes it as a small record that reports one button that is down;
  the model names the device and the button.
\<close>

record DeviceButtonSpec =
  deviceId :: DeviceId
  buttonId :: DeviceButtonId

text \<open>
  The default bodies ignore their arguments. An output array is a list; the functions
  return their result together with the array as they leave it.
\<close>

definition GetAnyButtonDown ::
    "world \<Rightarrow> DeviceButtonSpec list \<Rightarrow> nat \<Rightarrow> nat \<times> DeviceButtonSpec list" where
  "GetAnyButtonDown w outButtons maxButtonCount = (0, outButtons)"

definition GetButtonName :: "world \<Rightarrow> DeviceButtonId \<Rightarrow> string \<Rightarrow> nat \<Rightarrow> nat \<times> string" where
  "GetButtonName w deviceButton buffer bufferLength = (0, buffer)"

definition GetButtonByName :: "world \<Rightarrow> string \<Rightarrow> DeviceButtonId" where
  "GetButtonByName w name = InvalidDeviceButtonId"

subsection \<open>The delta notifier\<close>

text \<open>
  Modelled from the spec: the class InputDeltaState is only named by the header. The
  specification describes it as a sink that collects change records, each holding the
  device, the button, the old value and the new value, in the order they are reported.
\<close>

record Change =
  changeDevice :: DeviceId
  changeButton :: DeviceButtonId
  oldValue :: Button
  newValue :: Button

type_synonym InputDeltaState = "Change list"

text \<open>
  Modelled from the spec: a change is reported to the notifier if the pointer to it is
  not null (\<open>None\<close> is the null pointer), and a null notifier is never dereferenced.
\<close>

definition report_change :: "InputDeltaState option \<Rightarrow> Change \<Rightarrow> InputDeltaState option" where
  "report_change delta c = (case delta of None \<Rightarrow> None | Some cs \<Rightarrow> Some (cs @ [c]))"

subsection \<open>The per-frame update\<close>

text \<open>
  What the concrete device reads from its platform in one frame: for a button, the
  freshly sampled value, or \<open>None\<close> when the device did not look at that button.
\<close>

type_synonym Sampling = "DeviceButtonId \<Rightarrow> Button option"

text \<open>
  Modelled from the spec: InternalUpdate is pure virtual, its implementations are in the
  concrete devices. The specification says that it writes new values directly into the
  current buffer for each button whose value changed and, for each such change, reports
  (button, old value, new value) to the notifier if there is one.
\<close>

fun sample_buttons ::
    "DeviceId \<Rightarrow> Sampling \<Rightarrow> DeviceButtonId list \<Rightarrow> InputState \<Rightarrow> InputDeltaState option
      \<Rightarrow> InputState \<times> InputDeltaState option" where
  "sample_buttons d sampled [] s delta = (s, delta)"
| "sample_buttons d sampled (b # bs) s delta =
     (case sampled b of
        None \<Rightarrow> sample_buttons d sampled bs s delta
      | Some v \<Rightarrow>
          if b < length s \<and> v \<noteq> s ! b
          then sample_buttons d sampled bs (s[b := v])
                 (report_change delta
                    \<lparr>changeDevice = d, changeButton = b, oldValue = s ! b, newValue = v\<rparr>)
          else sample_buttons d sampled bs s delta)"

text \<open>
  Modelled from the spec: InternalUpdate samples every button of the current buffer once,
  in the order of the button ids, and leaves the buffer at the address it had.
\<close>

definition InternalUpdate ::
    "Sampling \<Rightarrow> InputDeltaState option \<Rightarrow> world \<Rightarrow> error + (InputDeltaState option \<times> world)" where
  "InternalUpdate sampled delta w =
     (case state_m (dev w) of
        None \<Rightarrow> Inl InvalidPointer
      | Some a \<Rightarrow>
          (case heap w a of
             None \<Rightarrow> Inl InvalidPointer
           | Some s \<Rightarrow>
               (case sample_buttons (deviceId_m (dev w)) sampled [0..<length s] s delta of
                  (s', delta') \<Rightarrow> Inr (delta', w\<lparr>heap := (heap w)(a \<mapsto> s')\<rparr>))))"

text \<open>
  Modelled from the spec: Update is declared by the header and defined outside it. The
  specification gives its algorithm: copy the entire contents of the current buffer into
  the previous buffer, then invoke InternalUpdate with the notifier, whether or not the
  device is available.
\<close>

definition Update ::
    "Sampling \<Rightarrow> InputDeltaState option \<Rightarrow> world \<Rightarrow> error + (InputDeltaState option \<times> world)" where
  "Update sampled delta w =
     (case state_m (dev w) of
        None \<Rightarrow> Inl InvalidPointer
      | Some a \<Rightarrow>
          (case previousState_m (dev w) of
             None \<Rightarrow> Inl InvalidPointer
           | Some p \<Rightarrow>
               (case heap w a of
                  None \<Rightarrow> Inl InvalidPointer
                | Some s \<Rightarrow>
                    if heap w p = None then Inl InvalidPointer
                    else InternalUpdate sampled delta (w\<lparr>heap := (heap w)(p \<mapsto> s)\<rparr>))))"

text \<open>
  The invariant of the data model: both pointers refer to allocated buffers, and the two
  buffers are not the same one.
\<close>

definition device_ok :: "world \<Rightarrow> bool" where
  "device_ok w =
     (case state_m (dev w) of
        None \<Rightarrow> False
      | Some a \<Rightarrow>
          (case previousState_m (dev w) of
             None \<Rightarrow> False
           | Some p \<Rightarrow> a \<noteq> p \<and> heap w a \<noteq> None \<and> heap w p \<noteq> None))"

text \<open>
  Button \<open>b\<close> holds different values in the previous and in the current buffer.
\<close>

definition button_differs :: "world \<Rightarrow> DeviceButtonId \<Rightarrow> bool" where
  "button_differs w b =
     (case previousState w of
        None \<Rightarrow> False
      | Some ps \<Rightarrow>
          (case currentState w of
             None \<Rightarrow> False
           | Some s \<Rightarrow> b < length ps \<and> b < length s \<and> ps ! b \<noteq> s ! b))"

definition records_of :: "DeviceButtonId \<Rightarrow> Change list \<Rightarrow> Change list" where
  "records_of b cs = filter (\<lambda>c. changeButton c = b) cs"

subsection \<open>The bounded scan for buttons that are down\<close>

text \<open>
  Modelled from the spec: CheckAllButtonsDown is declared by the header and defined
  outside it. The specification says that it scans the contiguous range of button ids
  from start to end and, for every button that is down according to GetBool, appends it
  to the output array, until the range is exhausted or maxButtonCount entries have been
  written, and returns the count written. The count is also the index of the next entry
  to be written.
\<close>

fun scan_buttons ::
    "world \<Rightarrow> DeviceButtonId list \<Rightarrow> nat \<Rightarrow> DeviceButtonSpec list \<Rightarrow> nat
      \<Rightarrow> error + (nat \<times> DeviceButtonSpec list)" where
  "scan_buttons w [] maxButtonCount outButtons buttonCount = Inr (buttonCount, outButtons)"
| "scan_buttons w (i # ids) maxButtonCount outButtons buttonCount =
     (if maxButtonCount \<le> buttonCount then Inr (buttonCount, outButtons)
      else (case fst (GetBool w i) of
              Inl e \<Rightarrow> Inl e
            | Inr down \<Rightarrow>
                if down
                then (if buttonCount < length outButtons
                      then scan_buttons w ids maxButtonCount
                             (outButtons[buttonCount :=
                                \<lparr>deviceId = deviceId_m (dev w), buttonId = i\<rparr>])
                             (Suc buttonCount)
                      else Inl OutOfBounds)
                else scan_buttons w ids maxButtonCount outButtons buttonCount))"

text \<open>
  Modelled from the spec: CheckAllButtonsDown scans the range from start to end, both
  included, starting with a count of zero.
\<close>

definition CheckAllButtonsDown ::
    "world \<Rightarrow> DeviceButtonSpec list \<Rightarrow> nat \<Rightarrow> nat \<Rightarrow> nat \<Rightarrow> error + (nat \<times> DeviceButtonSpec list)" where
  "CheckAllButtonsDown w outButtons maxButtonCount start endButton =
     scan_buttons w [start..<Suc endButton] maxButtonCount outButtons 0"

subsection \<open>Construction\<close>

text \<open>
  Modelled from the spec: the constructor is declared by the header, with the manager, the
  device id and the index as its arguments, and defined outside it. The specification
  says that the manager assigns the DeviceId and the per-type index when it constructs
  the device. What this constructor and the constructor of the concrete device do with
  the other members is not said: \<open>rest\<close> supplies them.
\<close>

definition InputDevice_ctor :: "addr \<Rightarrow> DeviceId \<Rightarrow> nat \<Rightarrow> world \<Rightarrow> world" where
  "InputDevice_ctor manager device index rest =
     rest\<lparr>dev := (dev rest)\<lparr>manager_m := manager, deviceId_m := device, index_m := index\<rparr>\<rparr>"

subsection \<open>The life of a device\<close>

text \<open>
  What happens to a device between its construction and its destruction: the manager
  updates it, callers read it, and the hardware behind it changes its state (a pad is
  unplugged, a battery runs low). A failed assertion ends the run.
\<close>

datatype Call =
    Call_Update Sampling "InputDeltaState option"
  | Call_GetBool DeviceButtonId
  | Call_GetBoolPrevious DeviceButtonId
  | Call_GetFloat DeviceButtonId
  | Call_GetFloatPrevious DeviceButtonId
  | Call_GetDeviceId
  | Call_GetIndex
  | Hardware_State DeviceState

fun after_call :: "Call \<Rightarrow> world \<Rightarrow> error + world" where
  "after_call (Call_Update sampled delta) w =
     (case Update sampled delta w of Inl e \<Rightarrow> Inl e | Inr (delta', w') \<Rightarrow> Inr w')"
| "after_call (Call_GetBool b) w =
     (case GetBool w b of (Inl e, w') \<Rightarrow> Inl e | (Inr v, w') \<Rightarrow> Inr w')"
| "after_call (Call_GetBoolPrevious b) w =
     (case GetBoolPrevious w b of (Inl e, w') \<Rightarrow> Inl e | (Inr v, w') \<Rightarrow> Inr w')"
| "after_call (Call_GetFloat b) w =
     (case GetFloat w b of (Inl e, w') \<Rightarrow> Inl e | (Inr v, w') \<Rightarrow> Inr w')"
| "after_call (Call_GetFloatPrevious b) w =
     (case GetFloatPrevious w b of (Inl e, w') \<Rightarrow> Inl e | (Inr v, w') \<Rightarrow> Inr w')"
| "after_call Call_GetDeviceId w = Inr (snd (GetDeviceId w))"
| "after_call Call_GetIndex w = Inr (snd (GetIndex w))"
| "after_call (Hardware_State st) w = Inr (w\<lparr>dev := (dev w)\<lparr>InternalGetState := st\<rparr>\<rparr>)"

fun lifetime :: "Call list \<Rightarrow> world \<Rightarrow> error + world" where
  "lifetime [] w = Inr w"
| "lifetime (c # cs) w =
     (case after_call c w of Inl e \<Rightarrow> Inl e | Inr w' \<Rightarrow> lifetime cs w')"

subsection \<open>A gamepad-like device used in the examples\<close>

text \<open>
  Two buttons: button 0 is boolean, button 1 is an axis. The current buffer lives at
  address 1, the previous one at address 2.
\<close>

definition pad_device :: InputDevice where
  "pad_device =
     \<lparr>manager_m = 0, deviceId_m = 7, index_m = 3, state_m = Some 1,
      previousState_m = Some 2, InternalGetState = DS_OK,
      IsValidButtonId = (\<lambda>b. b < 2)\<rparr>"

definition pad_world :: world where
  "pad_world =
     \<lparr>dev = pad_device,
      heap = [1 \<mapsto> [BoolValue True, FloatValue (1 / 2)],
              2 \<mapsto> [BoolValue False, FloatValue (1 / 4)]]\<rparr>"

definition unplugged_world :: world where
  "unplugged_world = pad_world\<lparr>dev := pad_device\<lparr>InternalGetState := DS_UNAVAILABLE\<rparr>\<rparr>"

text \<open>
  One frame of that pad: button 0 is released, the axis is sampled at the value it has.
\<close>

definition release_button_0 :: Sampling where
  "release_button_0 =
     (\<lambda>b. if b = 0 then Some (BoolValue False)
          else if b = 1 then Some (FloatValue (1 / 2)) else None)"

text \<open>
  A keyboard-like device with three boolean buttons, all of them down, and an output
  array of three entries that name device 0 and button 0.
\<close>

definition keys_world :: world where
  "keys_world =
     \<lparr>dev = \<lparr>manager_m = 0, deviceId_m = 5, index_m = 0, state_m = Some 1,
             previousState_m = Some 2, InternalGetState = DS_LOW_BATTERY,
             IsValidButtonId = (\<lambda>b. b < 3)\<rparr>,
      heap = [1 \<mapsto> [BoolValue True, BoolValue True, BoolValue True],
              2 \<mapsto> [BoolValue False, BoolValue False, BoolValue False]]\<rparr>"

definition blank_spec :: DeviceButtonSpec where
  "blank_spec = \<lparr>deviceId = 0, buttonId = 0\<rparr>"

section \<open>Properties of the getters\<close>

lemma snd_GetBool: "snd (GetBool w b) = w"
  by (simp add: GetBool_def split: option.splits)

lemma snd_GetBoolPrevious: "snd (GetBoolPrevious w b) = w"
  by (simp add: GetBoolPrevious_def split: option.splits)

lemma snd_GetFloat: "snd (GetFloat w b) = w"
  by (simp add: GetFloat_def split: option.splits)

lemma snd_GetFloatPrevious: "snd (GetFloatPrevious w b) = w"
  by (simp add: GetFloatPrevious_def split: option.splits)

lemma IsAvailable_heap [simp]: "IsAvailable (w\<lparr>heap := h\<rparr>) = IsAvailable w"
  by (simp add: IsAvailable_def GetState_def)

lemma IsAvailable_pad_world: "IsAvailable pad_world"
  by (simp add: IsAvailable_def GetState_def pad_world_def pad_device_def)

lemma not_IsAvailable_unplugged_world: "\<not> IsAvailable unplugged_world"
  by (simp add: IsAvailable_def GetState_def unplugged_world_def)

text \<open>
  C1: if IsAvailable() is false then GetBool and GetBoolPrevious return false and GetFloat
  and GetFloatPrevious return 0.0 for every button id, whatever the state buffers hold:
  the heap may be replaced by any other without changing the answers.
\<close>

theorem unavailable_masks_buffers:
  assumes "\<not> IsAvailable w"
  shows "fst (GetBool (w\<lparr>heap := h\<rparr>) b) = Inr False
       \<and> fst (GetBoolPrevious (w\<lparr>heap := h\<rparr>) b) = Inr False
       \<and> fst (GetFloat (w\<lparr>heap := h\<rparr>) b) = Inr 0
       \<and> fst (GetFloatPrevious (w\<lparr>heap := h\<rparr>) b) = Inr 0"
  using assms
  by (simp add: GetBool_def GetBoolPrevious_def GetFloat_def GetFloatPrevious_def)

theorem unavailable_masks_buffers_witness:
  "\<not> IsAvailable unplugged_world
   \<and> currentState unplugged_world = Some [BoolValue True, FloatValue (1 / 2)]
   \<and> previousState unplugged_world = Some [BoolValue False, FloatValue (1 / 4)]
   \<and> fst (GetBool unplugged_world 0) = Inr False
   \<and> fst (GetBoolPrevious unplugged_world 0) = Inr False
   \<and> fst (GetFloat unplugged_world 1) = Inr 0
   \<and> fst (GetFloatPrevious unplugged_world 1) = Inr 0"
proof -
  have un: "\<not> IsAvailable unplugged_world"
    by (rule not_IsAvailable_unplugged_world)
  have cur: "currentState unplugged_world = Some [BoolValue True, FloatValue (1 / 2)]"
    by (simp add: currentState_def unplugged_world_def pad_world_def pad_device_def)
  have prev: "previousState unplugged_world = Some [BoolValue False, FloatValue (1 / 4)]"
    by (simp add: previousState_def unplugged_world_def pad_world_def pad_device_def)
  show ?thesis
    using un cur prev
      unavailable_masks_buffers [OF un, of "heap unplugged_world" 0]
      unavailable_masks_buffers [OF un, of "heap unplugged_world" 1]
    by simp
qed

text \<open>
  C3: IsAvailable() is true exactly when GetState() is DS_OK or DS_LOW_BATTERY, and it is
  false when GetState() is DS_UNAVAILABLE.
\<close>

theorem IsAvailable_iff_state:
  "(IsAvailable w \<longleftrightarrow> GetState w = DS_OK \<or> GetState w = DS_LOW_BATTERY)
   \<and> (GetState w = DS_UNAVAILABLE \<longrightarrow> \<not> IsAvailable w)"
  by (simp add: IsAvailable_def)

theorem IsAvailable_iff_state_witness:
  "GetState unplugged_world = DS_UNAVAILABLE \<and> \<not> IsAvailable unplugged_world
   \<and> GetState pad_world = DS_OK \<and> IsAvailable pad_world"
proof -
  have st: "GetState unplugged_world = DS_UNAVAILABLE"
    by (simp add: GetState_def unplugged_world_def)
  have ok: "GetState pad_world = DS_OK"
    by (simp add: GetState_def pad_world_def pad_device_def)
  show ?thesis
    using st ok IsAvailable_iff_state [of unplugged_world] IsAvailable_iff_state [of pad_world]
    by simp
qed

text \<open>
  C4: on an available device and for a valid button id, GetBool and GetFloat return what
  the current buffer holds for that id, and GetBoolPrevious and GetFloatPrevious return
  what the previous buffer holds for it: each getter hands back the answer of the
  buffer's own accessor, so a stored boolean \<open>v\<close> is returned as \<open>v\<close> and a stored
  floating-point value \<open>x\<close> as \<open>x\<close>.
\<close>

theorem available_reads_buffers:
  assumes "IsAvailable w" and "IsValidButtonId (dev w) b"
    and "currentState w = Some s" and "previousState w = Some ps"
  shows "fst (GetBool w b) = InputState_GetBool s b
       \<and> fst (GetFloat w b) = InputState_GetFloat s b
       \<and> fst (GetBoolPrevious w b) = InputState_GetBool ps b
       \<and> fst (GetFloatPrevious w b) = InputState_GetFloat ps b
       \<and> (b < length s \<and> s ! b = BoolValue v \<longrightarrow> fst (GetBool w b) = Inr v)
       \<and> (b < length s \<and> s ! b = FloatValue x \<longrightarrow> fst (GetFloat w b) = Inr x)
       \<and> (b < length ps \<and> ps ! b = BoolValue v' \<longrightarrow> fst (GetBoolPrevious w b) = Inr v')
       \<and> (b < length ps \<and> ps ! b = FloatValue x' \<longrightarrow> fst (GetFloatPrevious w b) = Inr x')"
  using assms
  by (auto simp add: GetBool_def GetBoolPrevious_def GetFloat_def GetFloatPrevious_def
      currentState_def previousState_def InputState_GetBool_def InputState_GetFloat_def
      split: option.splits)

theorem available_reads_buffers_witness:
  "IsAvailable pad_world \<and> IsValidButtonId (dev pad_world) 0 \<and> IsValidButtonId (dev pad_world) 1
   \<and> currentState pad_world = Some [BoolValue True, FloatValue (1 / 2)]
   \<and> previousState pad_world = Some [BoolValue False, FloatValue (1 / 4)]
   \<and> fst (GetBool pad_world 0) = Inr True
   \<and> fst (GetFloat pad_world 1) = Inr (1 / 2)
   \<and> fst (GetBoolPrevious pad_world 0) = Inr False
   \<and> fst (GetFloatPrevious pad_world 1) = Inr (1 / 4)"
proof -
  have av: "IsAvailable pad_world"
    by (rule IsAvailable_pad_world)
  have v0: "IsValidButtonId (dev pad_world) 0" and v1: "IsValidButtonId (dev pad_world) 1"
    by (simp_all add: pad_world_def pad_device_def)
  have cur: "currentState pad_world = Some [BoolValue True, FloatValue (1 / 2)]"
    by (simp add: currentState_def pad_world_def pad_device_def)
  have prev: "previousState pad_world = Some [BoolValue False, FloatValue (1 / 4)]"
    by (simp add: previousState_def pad_world_def pad_device_def)
  show ?thesis
    using av v0 v1 cur prev
      available_reads_buffers [OF av v0 cur prev]
      available_reads_buffers [OF av v1 cur prev]
    by (simp add: InputState_GetBool_def InputState_GetFloat_def)
qed

text \<open>
  C9: the availability test comes before the assertions and before any use of the state
  pointers. On an unavailable device the four getters therefore return the neutral
  default for every button id, whatever IsValidButtonId answers, whatever the two
  pointers are (null included) and whatever the memory holds, and no assertion fails.
\<close>

theorem unavailable_short_circuits:
  assumes "\<not> IsAvailable w"
  shows "fst (GetBool (w\<lparr>dev := (dev w)\<lparr>state_m := cur, previousState_m := prev,
                 IsValidButtonId := valid\<rparr>, heap := h\<rparr>) b) = Inr False
       \<and> fst (GetBoolPrevious (w\<lparr>dev := (dev w)\<lparr>state_m := cur, previousState_m := prev,
                 IsValidButtonId := valid\<rparr>, heap := h\<rparr>) b) = Inr False
       \<and> fst (GetFloat (w\<lparr>dev := (dev w)\<lparr>state_m := cur, previousState_m := prev,
                 IsValidButtonId := valid\<rparr>, heap := h\<rparr>) b) = Inr 0
       \<and> fst (GetFloatPrevious (w\<lparr>dev := (dev w)\<lparr>state_m := cur, previousState_m := prev,
                 IsValidButtonId := valid\<rparr>, heap := h\<rparr>) b) = Inr 0"
  using assms
  by (simp add: GetBool_def GetBoolPrevious_def GetFloat_def GetFloatPrevious_def
      IsAvailable_def GetState_def)

theorem unavailable_short_circuits_witness:
  "\<not> IsAvailable unplugged_world
   \<and> fst (GetBool (unplugged_world\<lparr>dev := (dev unplugged_world)\<lparr>state_m := None,
            previousState_m := None, IsValidButtonId := (\<lambda>b. False)\<rparr>, heap := Map.empty\<rparr>) 99)
       = Inr False
   \<and> fst (GetFloatPrevious (unplugged_world\<lparr>dev := (dev unplugged_world)\<lparr>state_m := None,
            previousState_m := None, IsValidButtonId := (\<lambda>b. False)\<rparr>, heap := Map.empty\<rparr>) 99)
       = Inr 0
   \<and> fst (GetBool pad_world 99) = Inl AssertionFailed"
proof -
  have un: "\<not> IsAvailable unplugged_world"
    by (rule not_IsAvailable_unplugged_world)
  have pad: "fst (GetBool pad_world 99) = Inl AssertionFailed"
    using IsAvailable_pad_world by (simp add: GetBool_def pad_world_def pad_device_def)
  show ?thesis
    using un pad unavailable_short_circuits [OF un, where cur = None and prev = None
        and valid = "\<lambda>b. False" and h = Map.empty and b = 99]
    by simp
qed

text \<open>
  C10: GetBool, GetBoolPrevious, GetFloat and GetFloatPrevious change nothing: after each
  call the device record (deviceId_, index_, both state pointers) and the contents of
  every buffer are what they were before it.
\<close>

theorem getters_change_nothing:
  "snd (GetBool w b) = w \<and> snd (GetBoolPrevious w b) = w
   \<and> snd (GetFloat w b) = w \<and> snd (GetFloatPrevious w b) = w"
  by (simp add: GetBool_def GetBoolPrevious_def GetFloat_def GetFloatPrevious_def
      split: option.splits)

text \<open>
  C7: on a device that keeps the default bodies of the optional capabilities,
  GetAnyButtonDown returns 0 and GetButtonName returns 0, both leaving the output array
  as it was, and GetButtonByName returns InvalidDeviceButtonId, for every input; the
  results are plain values, there is no failure among them.
\<close>

theorem default_capabilities:
  "GetAnyButtonDown w outButtons maxButtonCount = (0, outButtons)
   \<and> GetButtonName w deviceButton buffer bufferLength = (0, buffer)
   \<and> GetButtonByName w name = InvalidDeviceButtonId"
  by (simp add: GetAnyButtonDown_def GetButtonName_def GetButtonByName_def)

section \<open>Properties of the update\<close>

lemma length_sample_buttons:
  "length (fst (sample_buttons d sampled bs s delta)) = length s"
  by (induction bs arbitrary: s delta) (auto split: option.splits)

lemma sample_buttons_null:
  "snd (sample_buttons d sampled bs s None) = None"
  by (induction bs arbitrary: s) (auto simp add: report_change_def split: option.splits)

lemma sample_buttons_untouched:
  "b \<notin> set bs \<Longrightarrow> fst (sample_buttons d sampled bs s delta) ! b = s ! b"
  by (induction bs arbitrary: s delta) (auto split: option.splits)

lemma sample_buttons_records:
  assumes "distinct bs"
  shows "\<exists>new. snd (sample_buttons d sampled bs s (Some cs)) = Some (cs @ new)
           \<and> (\<forall>b. records_of b new =
                 (if b < length s \<and> s ! b \<noteq> fst (sample_buttons d sampled bs s (Some cs)) ! b
                  then [\<lparr>changeDevice = d, changeButton = b, oldValue = s ! b,
                          newValue = fst (sample_buttons d sampled bs s (Some cs)) ! b\<rparr>]
                  else []))"
  using assms
proof (induction bs arbitrary: s cs)
  case Nil
  show ?case by (simp add: records_of_def)
next
  case (Cons b0 bs)
  then have notin: "b0 \<notin> set bs" and dist: "distinct bs"
    by simp_all
  show ?case
  proof (cases "sampled b0")
    case None
    then have step: "sample_buttons d sampled (b0 # bs) s (Some cs)
                       = sample_buttons d sampled bs s (Some cs)"
      by simp
    show ?thesis
      unfolding step by (rule Cons.IH [OF dist])
  next
    case (Some v)
    show ?thesis
    proof (cases "b0 < length s \<and> v \<noteq> s ! b0")
      case False
      with Some have step: "sample_buttons d sampled (b0 # bs) s (Some cs)
                              = sample_buttons d sampled bs s (Some cs)"
        by auto
      show ?thesis
        unfolding step by (rule Cons.IH [OF dist])
    next
      case True
      let ?r = "\<lparr>changeDevice = d, changeButton = b0, oldValue = s ! b0, newValue = v\<rparr>"
      let ?s1 = "s[b0 := v]"
      let ?res = "sample_buttons d sampled bs ?s1 (Some (cs @ [?r]))"
      have step: "sample_buttons d sampled (b0 # bs) s (Some cs) = ?res"
        using Some True by (simp add: report_change_def)
      obtain new1 where
        d1: "snd ?res = Some ((cs @ [?r]) @ new1)" and
        r1: "\<And>b. records_of b new1 =
               (if b < length ?s1 \<and> ?s1 ! b \<noteq> fst ?res ! b
                then [\<lparr>changeDevice = d, changeButton = b, oldValue = ?s1 ! b,
                        newValue = fst ?res ! b\<rparr>]
                else [])"
        using Cons.IH [OF dist, of ?s1 "cs @ [?r]"] by blast
      have keep: "fst ?res ! b0 = v"
        using sample_buttons_untouched [OF notin, of d sampled ?s1 "Some (cs @ [?r])"] True
        by simp
      have recs: "records_of b (?r # new1) =
              (if b < length s \<and> s ! b \<noteq> fst ?res ! b
               then [\<lparr>changeDevice = d, changeButton = b, oldValue = s ! b,
                       newValue = fst ?res ! b\<rparr>]
               else [])" for b
      proof (cases "b = b0")
        case True
        have "records_of b0 new1 = []"
          using r1 [of b0] keep \<open>b0 < length s \<and> v \<noteq> s ! b0\<close> by auto
        then have "records_of b0 (?r # new1) = [?r]"
          by (simp add: records_of_def)
        then show ?thesis
          using True keep \<open>b0 < length s \<and> v \<noteq> s ! b0\<close> by auto
      next
        case False
        then have "records_of b (?r # new1) = records_of b new1"
          by (simp add: records_of_def)
        then show ?thesis
          using False r1 [of b] by auto
      qed
      have "snd ?res = Some (cs @ ?r # new1)"
        using d1 by simp
      then show ?thesis
        unfolding step using recs by blast
    qed
  qed
qed

lemma Update_unfold:
  assumes "device_ok w"
  shows "\<exists>a p s.
           state_m (dev w) = Some a \<and> previousState_m (dev w) = Some p \<and> a \<noteq> p
         \<and> heap w a = Some s \<and> heap w p \<noteq> None
         \<and> Update sampled delta w =
             Inr (snd (sample_buttons (deviceId_m (dev w)) sampled [0..<length s] s delta),
                  w\<lparr>heap := (heap w)(p \<mapsto> s,
                      a \<mapsto> fst (sample_buttons (deviceId_m (dev w)) sampled [0..<length s] s delta))\<rparr>)"
  using assms
  by (auto simp add: device_ok_def Update_def InternalUpdate_def
      split: option.splits prod.splits)

lemma upt_0_2: "[0..<2] = [0, Suc 0]"
  by (simp add: upt_rec)

lemma upt_0_3: "[0..<3] = [0, Suc 0, 2]"
  by (simp add: upt_rec)

lemma device_ok_pad_world: "device_ok pad_world"
  by (simp add: device_ok_def pad_world_def pad_device_def)

text \<open>
  C2: Update first copies the whole current buffer into the previous buffer and then
  invokes InternalUpdate on the result; so, on a device whose two buffers are allocated
  and distinct, Update returns, and right after it the previous buffer holds, for every
  button id, exactly what the current buffer held right before the call. The device is
  then again in a state where this applies to the next frame.
\<close>

theorem Update_double_buffer:
  assumes "device_ok w"
  shows "\<exists>delta' w' w1.
           previousState w1 = currentState w \<and> currentState w1 = currentState w
         \<and> Update sampled delta w = InternalUpdate sampled delta w1
         \<and> Update sampled delta w = Inr (delta', w')
         \<and> previousState w' = currentState w
         \<and> currentState w \<noteq> None
         \<and> device_ok w'"
proof -
  let ?d = "deviceId_m (dev w)"
  obtain a p s where
    a: "state_m (dev w) = Some a" and p: "previousState_m (dev w) = Some p" and
    ap: "a \<noteq> p" and s: "heap w a = Some s" and ps: "heap w p \<noteq> None" and
    u: "Update sampled delta w =
          Inr (snd (sample_buttons ?d sampled [0..<length s] s delta),
               w\<lparr>heap := (heap w)(p \<mapsto> s,
                   a \<mapsto> fst (sample_buttons ?d sampled [0..<length s] s delta))\<rparr>)"
    using Update_unfold [OF assms, of sampled delta] by blast
  let ?w1 = "w\<lparr>heap := (heap w)(p \<mapsto> s)\<rparr>"
  let ?w' = "w\<lparr>heap := (heap w)(p \<mapsto> s,
               a \<mapsto> fst (sample_buttons ?d sampled [0..<length s] s delta))\<rparr>"
  have c1: "previousState ?w1 = currentState w"
    using a p s by (simp add: previousState_def currentState_def)
  have c2: "currentState ?w1 = currentState w"
    using a p ap s by (simp add: currentState_def)
  have c3: "Update sampled delta w = InternalUpdate sampled delta ?w1"
    using a p s ps by (auto simp add: Update_def)
  have c4: "previousState ?w' = currentState w"
    using a p ap s by (simp add: previousState_def currentState_def)
  have c5: "currentState w \<noteq> None"
    using a s by (simp add: currentState_def)
  have c6: "device_ok ?w'"
    using a p ap by (simp add: device_ok_def)
  from c1 c2 c3 u c4 c5 c6 show ?thesis
    by blast
qed

theorem Update_double_buffer_witness:
  "device_ok pad_world
   \<and> currentState pad_world = Some [BoolValue True, FloatValue (1 / 2)]
   \<and> previousState pad_world = Some [BoolValue False, FloatValue (1 / 4)]
   \<and> (case Update release_button_0 None pad_world of
        Inl e \<Rightarrow> False
      | Inr (delta', w') \<Rightarrow>
          previousState w' = Some [BoolValue True, FloatValue (1 / 2)]
        \<and> currentState w' = Some [BoolValue False, FloatValue (1 / 2)])"
proof -
  have ok: "device_ok pad_world"
    by (rule device_ok_pad_world)
  have cur: "currentState pad_world = Some [BoolValue True, FloatValue (1 / 2)]"
    by (simp add: currentState_def pad_world_def pad_device_def)
  have prev: "previousState pad_world = Some [BoolValue False, FloatValue (1 / 4)]"
    by (simp add: previousState_def pad_world_def pad_device_def)
  obtain delta' w' where
    u: "Update release_button_0 None pad_world = Inr (delta', w')" and
    pw: "previousState w' = currentState pad_world"
    using Update_double_buffer [OF ok, of release_button_0 None] by blast
  have "currentState (snd (projr (Update release_button_0 None pad_world)))
          = Some [BoolValue False, FloatValue (1 / 2)]"
    by (simp add: Update_def InternalUpdate_def pad_world_def pad_device_def
        release_button_0_def currentState_def report_change_def upt_0_2)
  then have cw: "currentState w' = Some [BoolValue False, FloatValue (1 / 2)]"
    using u by simp
  show ?thesis
    using ok cur prev u pw cw by simp
qed

text \<open>
  C5: an Update with a notifier appends to it exactly one change record, carrying the old
  and the new value, for every button whose value differs between the previous and the
  current buffer after the Update, and no record for any other button.
\<close>

theorem Update_delta_complete:
  assumes "device_ok w"
  shows "\<exists>new w'.
           Update sampled (Some cs) w = Inr (Some (cs @ new), w')
         \<and> (\<forall>b. records_of b new =
                 (if button_differs w' b
                  then [\<lparr>changeDevice = deviceId_m (dev w'), changeButton = b,
                          oldValue = the (previousState w') ! b,
                          newValue = the (currentState w') ! b\<rparr>]
                  else []))"
proof -
  let ?d = "deviceId_m (dev w)"
  obtain a p s where
    a: "state_m (dev w) = Some a" and p: "previousState_m (dev w) = Some p" and
    ap: "a \<noteq> p" and s: "heap w a = Some s" and
    u: "Update sampled (Some cs) w =
          Inr (snd (sample_buttons ?d sampled [0..<length s] s (Some cs)),
               w\<lparr>heap := (heap w)(p \<mapsto> s,
                   a \<mapsto> fst (sample_buttons ?d sampled [0..<length s] s (Some cs)))\<rparr>)"
    using Update_unfold [OF assms, of sampled "Some cs"] by blast
  let ?s' = "fst (sample_buttons ?d sampled [0..<length s] s (Some cs))"
  let ?w' = "w\<lparr>heap := (heap w)(p \<mapsto> s, a \<mapsto> ?s')\<rparr>"
  obtain new where
    d: "snd (sample_buttons ?d sampled [0..<length s] s (Some cs)) = Some (cs @ new)" and
    r: "\<And>b. records_of b new =
             (if b < length s \<and> s ! b \<noteq> ?s' ! b
              then [\<lparr>changeDevice = ?d, changeButton = b, oldValue = s ! b,
                      newValue = ?s' ! b\<rparr>]
              else [])"
    using sample_buttons_records [of "[0..<length s]" ?d sampled s cs] by auto
  have len: "length ?s' = length s"
    by (rule length_sample_buttons)
  have pw: "previousState ?w' = Some s"
    using a p ap by (simp add: previousState_def)
  have cw: "currentState ?w' = Some ?s'"
    using a by (simp add: currentState_def)
  have diff: "button_differs ?w' b \<longleftrightarrow> b < length s \<and> s ! b \<noteq> ?s' ! b" for b
    using pw cw len by (simp add: button_differs_def)
  have "records_of b new =
          (if button_differs ?w' b
           then [\<lparr>changeDevice = deviceId_m (dev ?w'), changeButton = b,
                   oldValue = the (previousState ?w') ! b,
                   newValue = the (currentState ?w') ! b\<rparr>]
           else [])" for b
    using r [of b] diff [of b] pw cw by simp
  moreover have "Update sampled (Some cs) w = Inr (Some (cs @ new), ?w')"
    using u d by simp
  ultimately show ?thesis
    by blast
qed

theorem Update_delta_complete_witness:
  "device_ok pad_world
   \<and> (case Update release_button_0 (Some []) pad_world of
        Inl e \<Rightarrow> False
      | Inr (delta', w') \<Rightarrow>
          delta' = Some [\<lparr>changeDevice = 7, changeButton = 0, oldValue = BoolValue True,
                           newValue = BoolValue False\<rparr>]
        \<and> button_differs w' 0 \<and> \<not> button_differs w' 1)"
proof -
  have ok: "device_ok pad_world"
    by (rule device_ok_pad_world)
  obtain new w' where
    u: "Update release_button_0 (Some []) pad_world = Inr (Some ([] @ new), w')" and
    r: "\<And>b. records_of b new =
             (if button_differs w' b
              then [\<lparr>changeDevice = deviceId_m (dev w'), changeButton = b,
                      oldValue = the (previousState w') ! b,
                      newValue = the (currentState w') ! b\<rparr>]
              else [])"
    using Update_delta_complete [OF ok, of release_button_0 "[]"] by blast
  have run: "fst (projr (Update release_button_0 (Some []) pad_world))
          = Some [\<lparr>changeDevice = 7, changeButton = 0, oldValue = BoolValue True,
                    newValue = BoolValue False\<rparr>]"
    by (simp add: Update_def InternalUpdate_def pad_world_def pad_device_def
        release_button_0_def report_change_def upt_0_2)
  then have new: "new = [\<lparr>changeDevice = 7, changeButton = 0, oldValue = BoolValue True,
                           newValue = BoolValue False\<rparr>]"
    using u by simp
  have d0: "button_differs w' 0"
    using r [of 0] new by (auto simp add: records_of_def split: if_splits)
  have d1: "\<not> button_differs w' 1"
    using r [of 1] new by (auto simp add: records_of_def split: if_splits)
  show ?thesis
    using ok u new d0 d1 by simp
qed

section \<open>Properties of the bulk queries\<close>

lemma scan_buttons_bound:
  assumes "scan_buttons w ids maxButtonCount outButtons n = Inr (count, out')"
    and "n \<le> maxButtonCount"
  shows "n \<le> count \<and> count \<le> maxButtonCount \<and> length out' = length outButtons
       \<and> drop count out' = drop count outButtons"
  using assms
proof (induction ids arbitrary: outButtons n)
  case Nil
  then show ?case by simp
next
  case (Cons i ids)
  show ?case
  proof (cases "maxButtonCount \<le> n")
    case True
    with Cons.prems show ?thesis by simp
  next
    case False
    then have lt: "n < maxButtonCount" by simp
    show ?thesis
    proof (cases "fst (GetBool w i)")
      case (Inl e)
      with Cons.prems False show ?thesis by simp
    next
      case (Inr down)
      show ?thesis
      proof (cases down)
        case False
        with Cons.prems Inr lt have
          "scan_buttons w ids maxButtonCount outButtons n = Inr (count, out')"
          by simp
        from Cons.IH [OF this Cons.prems(2)] show ?thesis .
      next
        case True
        let ?out = "outButtons[n := \<lparr>deviceId = deviceId_m (dev w), buttonId = i\<rparr>]"
        from Cons.prems Inr lt True have room: "n < length outButtons"
          by (simp split: if_splits)
        with Cons.prems Inr lt True have
          "scan_buttons w ids maxButtonCount ?out (Suc n) = Inr (count, out')"
          by simp
        moreover have "Suc n \<le> maxButtonCount"
          using lt by simp
        ultimately have ih: "Suc n \<le> count \<and> count \<le> maxButtonCount
            \<and> length out' = length ?out \<and> drop count out' = drop count ?out"
          by (rule Cons.IH)
        then have "n < count" by simp
        then have "drop count ?out = drop count outButtons"
          by (rule drop_update_cancel)
        with ih show ?thesis by simp
      qed
    qed
  qed
qed

text \<open>
  C6: the count returned by GetAnyButtonDown and by CheckAllButtonsDown is never greater
  than maxButtonCount, and no element of outButtons at index count or beyond is written:
  the output array keeps its length and, from index count on, its contents.
\<close>

theorem bulk_query_bound:
  "fst (GetAnyButtonDown w outButtons maxButtonCount) \<le> maxButtonCount
   \<and> drop (fst (GetAnyButtonDown w outButtons maxButtonCount))
          (snd (GetAnyButtonDown w outButtons maxButtonCount))
       = drop (fst (GetAnyButtonDown w outButtons maxButtonCount)) outButtons
   \<and> (CheckAllButtonsDown w outButtons maxButtonCount start endButton = Inr (count, out')
        \<longrightarrow> count \<le> maxButtonCount \<and> length out' = length outButtons
          \<and> drop count out' = drop count outButtons)"
  using scan_buttons_bound [of w "[start..<Suc endButton]" maxButtonCount outButtons 0 count out']
  by (simp add: GetAnyButtonDown_def CheckAllButtonsDown_def)

theorem bulk_query_bound_witness:
  "CheckAllButtonsDown keys_world [blank_spec, blank_spec, blank_spec] 2 0 2
     = Inr (2, [\<lparr>deviceId = 5, buttonId = 0\<rparr>, \<lparr>deviceId = 5, buttonId = 1\<rparr>, blank_spec])
   \<and> (2::nat) \<le> 2
   \<and> drop 2 [\<lparr>deviceId = 5, buttonId = 0\<rparr>, \<lparr>deviceId = 5, buttonId = 1\<rparr>, blank_spec]
       = drop 2 [blank_spec, blank_spec, blank_spec]
   \<and> GetAnyButtonDown keys_world [blank_spec, blank_spec, blank_spec] 2
       = (0, [blank_spec, blank_spec, blank_spec])"
proof -
  have av: "IsAvailable keys_world"
    by (simp add: IsAvailable_def GetState_def keys_world_def)
  have g: "fst (GetBool keys_world 0) = Inr True" "fst (GetBool keys_world (Suc 0)) = Inr True"
    "fst (GetBool keys_world 2) = Inr True"
    using av by (simp_all add: GetBool_def InputState_GetBool_def keys_world_def)
  have d: "deviceId_m (dev keys_world) = 5"
    by (simp add: keys_world_def)
  have run: "CheckAllButtonsDown keys_world [blank_spec, blank_spec, blank_spec] 2 0 2
     = Inr (2, [\<lparr>deviceId = 5, buttonId = 0\<rparr>, \<lparr>deviceId = 5, buttonId = 1\<rparr>, blank_spec])"
    using g d by (simp add: CheckAllButtonsDown_def upt_0_3)
  show ?thesis
    using run
      bulk_query_bound [of keys_world "[blank_spec, blank_spec, blank_spec]" 2 0 2 2
        "[\<lparr>deviceId = 5, buttonId = 0\<rparr>, \<lparr>deviceId = 5, buttonId = 1\<rparr>, blank_spec]"]
    by (simp add: GetAnyButtonDown_def)
qed

section \<open>Properties of the accessors\<close>

lemma Update_dev:
  "Update sampled delta w = Inr (delta', w') \<Longrightarrow> dev w' = dev w"
  by (auto simp add: Update_def InternalUpdate_def split: option.splits prod.splits if_splits)

lemma after_call_ids:
  assumes "after_call c w = Inr w'"
  shows "deviceId_m (dev w') = deviceId_m (dev w) \<and> index_m (dev w') = index_m (dev w)"
proof (cases c)
  case (Call_Update sampled delta)
  with assms obtain delta' where "Update sampled delta w = Inr (delta', w')"
    by (auto split: sum.splits)
  then show ?thesis
    by (simp add: Update_dev)
next
  case (Call_GetBool b)
  with assms snd_GetBool [of w b] show ?thesis
    by (auto split: sum.splits prod.splits)
next
  case (Call_GetBoolPrevious b)
  with assms snd_GetBoolPrevious [of w b] show ?thesis
    by (auto split: sum.splits prod.splits)
next
  case (Call_GetFloat b)
  with assms snd_GetFloat [of w b] show ?thesis
    by (auto split: sum.splits prod.splits)
next
  case (Call_GetFloatPrevious b)
  with assms snd_GetFloatPrevious [of w b] show ?thesis
    by (auto split: sum.splits prod.splits)
next
  case Call_GetDeviceId
  with assms show ?thesis by (auto simp add: GetDeviceId_def)
next
  case Call_GetIndex
  with assms show ?thesis by (auto simp add: GetIndex_def)
next
  case (Hardware_State st)
  with assms show ?thesis by auto
qed

lemma lifetime_ids:
  "lifetime calls w = Inr w' \<Longrightarrow>
     deviceId_m (dev w') = deviceId_m (dev w) \<and> index_m (dev w') = index_m (dev w)"
proof (induction calls arbitrary: w)
  case Nil
  then show ?case by simp
next
  case (Cons c calls)
  then obtain w1 where c: "after_call c w = Inr w1" and rest: "lifetime calls w1 = Inr w'"
    by (auto split: sum.splits)
  from Cons.IH [OF rest] after_call_ids [OF c] show ?case
    by simp
qed

text \<open>
  C8: GetDeviceId() and GetIndex() are pure accessors. Whatever has happened to the device
  since its construction (updates, reads, changes of the hardware state), they return
  the DeviceId and the index that the constructor was given, and they leave the device
  and its buffers as they found them.
\<close>

theorem accessors_pure:
  assumes "lifetime calls (InputDevice_ctor manager device index rest) = Inr w"
  shows "GetDeviceId w = (device, w) \<and> GetIndex w = (index, w)"
  using lifetime_ids [OF assms]
  by (simp add: GetDeviceId_def GetIndex_def InputDevice_ctor_def)

theorem accessors_pure_witness:
  "(case lifetime
           [Call_GetBool 0, Call_GetDeviceId, Hardware_State DS_UNAVAILABLE,
            Call_Update release_button_0 None, Call_GetFloat 1, Call_GetIndex,
            Hardware_State DS_OK, Call_GetBoolPrevious 0]
           (InputDevice_ctor 0 42 1 pad_world) of
      Inl e \<Rightarrow> False
    | Inr w \<Rightarrow> GetDeviceId w = (42, w) \<and> GetIndex w = (1, w)
              \<and> fst (GetBool w 0) = Inr False \<and> fst (GetBoolPrevious w 0) = Inr True)"
proof -
  let ?run = "lifetime
           [Call_GetBool 0, Call_GetDeviceId, Hardware_State DS_UNAVAILABLE,
            Call_Update release_button_0 None, Call_GetFloat 1, Call_GetIndex,
            Hardware_State DS_OK, Call_GetBoolPrevious 0]
           (InputDevice_ctor 0 42 1 pad_world)"
  have run: "?run = Inr (projr ?run)
      \<and> fst (GetBool (projr ?run) 0) = Inr False
      \<and> fst (GetBoolPrevious (projr ?run) 0) = Inr True"
    by (simp add: InputDevice_ctor_def pad_world_def pad_device_def GetBool_def
        GetBoolPrevious_def GetFloat_def GetDeviceId_def GetIndex_def IsAvailable_def
        GetState_def InputState_GetBool_def InputState_GetFloat_def Update_def
        InternalUpdate_def release_button_0_def report_change_def upt_0_2)
  then have r: "?run = Inr (projr ?run)"
    by simp
  show ?thesis
    using run accessors_pure [OF r]
    by (cases ?run) simp_all
qed

end
